theory Spec2Isabelle
  imports Main "HOL-Library.AList" "HOL-Library.Sublist" "HOL-Library.Char_ord" "HOL-Library.List_Lexorder"
begin

section \<open>Cell values, errors and tables\<close>

text \<open>
  A CRM record is a JSON-like mapping. A cell holds a scalar (null, boolean, number, string,
  date) or a nested object. Python's \<open>None\<close>, \<open>NaN\<close> and \<open>NaT\<close> are all what pandas calls
  null, so they are the one scalar \<open>SNull\<close>. Numbers are integers and dates are whole days
  (every date the filters see has been normalised to midnight); only their equality and
  order are used, never their arithmetic.
\<close>

datatype scalar = SNull | SBool bool | SNum int | SStr string | SDate int

datatype val = VAtom scalar | VObj "(string \<times> val) list"

text \<open>The exceptions the code can raise, as values.\<close>

datatype exn = KeyError string | ValueError string | TypeError | InvalidIndexError

text \<open>
  A pandas DataFrame: the column labels, and the rows in order, each with its index label.
  A row is the record it was built from; a column the record does not mention reads as null
  there, which is how \<open>pd.DataFrame(records)\<close> fills sparse records.
\<close>

type_synonym row = "int \<times> (string \<times> val) list"

record dataframe =
  df_columns :: "string list"
  df_rows :: "row list"

definition cell :: "(string \<times> val) list \<Rightarrow> string \<Rightarrow> val" where
  "cell r c = (case map_of r c of Some v \<Rightarrow> v | None \<Rightarrow> VAtom SNull)"

text \<open>
  \<open>df[column]\<close>: the column as a series of cells, or \<open>KeyError\<close>. (Column labels are taken
  to be distinct, as they are in a table built from records; where a label is repeated a
  cell is read from its first occurrence.)
\<close>

definition column_values :: "dataframe \<Rightarrow> string \<Rightarrow> val list" where
  "column_values df column = map (\<lambda>r. cell (snd r) column) (df_rows df)"

definition get_column :: "dataframe \<Rightarrow> string \<Rightarrow> exn + val list" where
  "get_column df column =
     (if column \<in> set (df_columns df)
      then Inr (column_values df column)
      else Inl (KeyError column))"

text \<open>\<open>len(df)\<close> and \<open>df.index\<close>.\<close>

definition len :: "dataframe \<Rightarrow> nat" where
  "len df = length (df_rows df)"

definition df_index :: "dataframe \<Rightarrow> int list" where
  "df_index df = map fst (df_rows df)"

section \<open>Series operations of pandas\<close>

definition isna :: "val list \<Rightarrow> bool list" where
  "isna s = map (\<lambda>v. v = VAtom SNull) s"

definition notna :: "val list \<Rightarrow> bool list" where
  "notna s = map (\<lambda>v. v \<noteq> VAtom SNull) s"

datatype cmp = Eq | Ne | Ge | Le | Gt | Lt

text \<open>Python's \<open>bool\<close> is an \<open>int\<close>: \<open>True == 1\<close>.\<close>

fun num_of :: "scalar \<Rightarrow> int option" where
  "num_of (SBool b) = Some (if b then 1 else 0)"
| "num_of (SNum n) = Some n"
| "num_of _ = None"

definition py_eq :: "scalar \<Rightarrow> scalar \<Rightarrow> bool" where
  "py_eq x y = (case (num_of x, num_of y) of (Some a, Some b) \<Rightarrow> a = b | _ \<Rightarrow> x = y)"

text \<open>
  An ordering comparison of two non-null scalars: numbers with numbers, strings with
  strings, dates with dates; Python raises \<open>TypeError\<close> for any other pair.
\<close>

definition py_ord :: "(int \<Rightarrow> int \<Rightarrow> bool) \<Rightarrow> (string \<Rightarrow> string \<Rightarrow> bool) \<Rightarrow> scalar \<Rightarrow> scalar \<Rightarrow> exn + bool" where
  "py_ord fi fs x y =
     (case (num_of x, num_of y) of
        (Some a, Some b) \<Rightarrow> Inr (fi a b)
      | _ \<Rightarrow> (case (x, y) of
                (SStr a, SStr b) \<Rightarrow> Inr (fs a b)
              | (SDate a, SDate b) \<Rightarrow> Inr (fi a b)
              | _ \<Rightarrow> Inl TypeError))"

text \<open>
  One cell against one scalar operand, as pandas compares element by element: a null on
  either side is unequal to everything and ordered with nothing, without an error.
\<close>

definition compare_scalar :: "cmp \<Rightarrow> scalar \<Rightarrow> scalar \<Rightarrow> exn + bool" where
  "compare_scalar op x y =
     (if x = SNull \<or> y = SNull then Inr (op = Ne)
      else (case op of
              Eq \<Rightarrow> Inr (py_eq x y)
            | Ne \<Rightarrow> Inr (\<not> py_eq x y)
            | Ge \<Rightarrow> py_ord (\<lambda>a b. a \<ge> b) (\<lambda>a b. a \<ge> b) x y
            | Le \<Rightarrow> py_ord (\<lambda>a b. a \<le> b) (\<lambda>a b. a \<le> b) x y
            | Gt \<Rightarrow> py_ord (\<lambda>a b. a > b) (\<lambda>a b. a > b) x y
            | Lt \<Rightarrow> py_ord (\<lambda>a b. a < b) (\<lambda>a b. a < b) x y))"

definition compare_val :: "cmp \<Rightarrow> val \<Rightarrow> scalar \<Rightarrow> exn + bool" where
  "compare_val op v y =
     (case v of
        VAtom x \<Rightarrow> compare_scalar op x y
      | VObj d \<Rightarrow> (if y = SNull then Inr (op = Ne)
                   else (case op of Eq \<Rightarrow> Inr False | Ne \<Rightarrow> Inr True | _ \<Rightarrow> Inl TypeError)))"

text \<open>The first error of a list of results, or all the values.\<close>

fun collect :: "(exn + 'a) list \<Rightarrow> exn + 'a list" where
  "collect [] = Inr []"
| "collect (x # xs) =
     (case x of
        Inl e \<Rightarrow> Inl e
      | Inr v \<Rightarrow> (case collect xs of Inl e \<Rightarrow> Inl e | Inr vs \<Rightarrow> Inr (v # vs)))"

text \<open>
  An operand of a filter is a scalar or a Python list of scalars. A series compared with a
  scalar is compared cell by cell; compared with a list it is compared position by
  position, and pandas refuses a list of another length.
\<close>

datatype operand = OScalar scalar | OList "scalar list"

definition compare_series :: "cmp \<Rightarrow> val list \<Rightarrow> operand \<Rightarrow> exn + bool list" where
  "compare_series op s value =
     (case value of
        OScalar y \<Rightarrow> collect (map (\<lambda>v. compare_val op v y) s)
      | OList ys \<Rightarrow>
          (if length ys \<noteq> length s then Inl (ValueError ''Lengths must match to compare'')
           else collect (map (\<lambda>(v, y). compare_val op v y) (zip s ys))))"

text \<open>
  \<open>Series.isin(values)\<close>: membership by hash and equality, where a null cell is found by a
  null in the list. A scalar operand is not list-like, and a nested object cannot be hashed.
\<close>

definition member_py :: "scalar \<Rightarrow> scalar list \<Rightarrow> bool" where
  "member_py x ys =
     (if x = SNull then SNull \<in> set ys
      else list_ex (\<lambda>y. y \<noteq> SNull \<and> py_eq x y) ys)"

definition isin :: "val list \<Rightarrow> operand \<Rightarrow> exn + bool list" where
  "isin s value =
     (case value of
        OScalar y \<Rightarrow> Inl TypeError
      | OList ys \<Rightarrow>
          collect (map (\<lambda>v. case v of VAtom x \<Rightarrow> Inr (member_py x ys) | VObj d \<Rightarrow> Inl TypeError) s))"

text \<open>\<open>mask &= series\<close> and \<open>df.loc[mask].copy()\<close>.\<close>

definition mask_and :: "bool list \<Rightarrow> bool list \<Rightarrow> bool list" where
  "mask_and msk s = map (\<lambda>(a, b). a \<and> b) (zip msk s)"

definition df_loc :: "dataframe \<Rightarrow> bool list \<Rightarrow> dataframe" where
  "df_loc df msk = df\<lparr>df_rows := map fst (filter snd (zip (df_rows df) msk))\<rparr>"

section \<open>The predicate filter engine\<close>

text \<open>
  A filter specification is a Python dict, walked in insertion order: a column with a bare
  literal, or with a dict from operator symbol to operand.
\<close>

datatype condition = Lit operand | Ops "(string \<times> operand) list"

type_synonym filter_spec = "(string \<times> condition) list"

text \<open>One turn of the inner loop of \<open>apply_filters\<close>: the chain of \<open>if op == ...\<close>.\<close>

definition apply_op :: "dataframe \<Rightarrow> string \<Rightarrow> bool list \<Rightarrow> string \<times> operand \<Rightarrow> exn + bool list" where
  "apply_op df column msk ov =
     (let op = fst ov; value = snd ov in
      if op = ''isna'' then
        (case get_column df column of Inl e \<Rightarrow> Inl e | Inr s \<Rightarrow> Inr (mask_and msk (isna s)))
      else if op = ''notna'' then
        (case get_column df column of Inl e \<Rightarrow> Inl e | Inr s \<Rightarrow> Inr (mask_and msk (notna s)))
      else if op = ''='' then
        (case get_column df column of Inl e \<Rightarrow> Inl e
         | Inr s \<Rightarrow> (case compare_series Eq s value of Inl e \<Rightarrow> Inl e | Inr b \<Rightarrow> Inr (mask_and msk b)))
      else if op = ''!='' then
        (case get_column df column of Inl e \<Rightarrow> Inl e
         | Inr s \<Rightarrow> (case compare_series Ne s value of Inl e \<Rightarrow> Inl e | Inr b \<Rightarrow> Inr (mask_and msk b)))
      else if op = ''in'' then
        (case get_column df column of Inl e \<Rightarrow> Inl e
         | Inr s \<Rightarrow> (case isin s value of Inl e \<Rightarrow> Inl e | Inr b \<Rightarrow> Inr (mask_and msk b)))
      else if op = ''>='' then
        (case get_column df column of Inl e \<Rightarrow> Inl e
         | Inr s \<Rightarrow> (case compare_series Ge s value of Inl e \<Rightarrow> Inl e | Inr b \<Rightarrow> Inr (mask_and msk b)))
      else if op = ''<='' then
        (case get_column df column of Inl e \<Rightarrow> Inl e
         | Inr s \<Rightarrow> (case compare_series Le s value of Inl e \<Rightarrow> Inl e | Inr b \<Rightarrow> Inr (mask_and msk b)))
      else if op = ''>'' then
        (case get_column df column of Inl e \<Rightarrow> Inl e
         | Inr s \<Rightarrow> (case compare_series Gt s value of Inl e \<Rightarrow> Inl e | Inr b \<Rightarrow> Inr (mask_and msk b)))
      else if op = ''<'' then
        (case get_column df column of Inl e \<Rightarrow> Inl e
         | Inr s \<Rightarrow> (case compare_series Lt s value of Inl e \<Rightarrow> Inl e | Inr b \<Rightarrow> Inr (mask_and msk b)))
      else Inl (ValueError (''Unsupported operator: '' @ op)))"

text \<open>The inner loop over \<open>condition.items()\<close>; the first exception ends it.\<close>

fun ops_loop :: "dataframe \<Rightarrow> string \<Rightarrow> bool list \<Rightarrow> (string \<times> operand) list \<Rightarrow> exn + bool list" where
  "ops_loop df column msk [] = Inr msk"
| "ops_loop df column msk (ov # rest) =
     (case apply_op df column msk ov of
        Inl e \<Rightarrow> Inl e
      | Inr msk' \<Rightarrow> ops_loop df column msk' rest)"

text \<open>One turn of the outer loop: a dict of operators, or simple equality.\<close>

definition apply_condition :: "dataframe \<Rightarrow> bool list \<Rightarrow> string \<times> condition \<Rightarrow> exn + bool list" where
  "apply_condition df msk cc =
     (case snd cc of
        Ops ops \<Rightarrow> ops_loop df (fst cc) msk ops
      | Lit value \<Rightarrow>
          (case get_column df (fst cc) of Inl e \<Rightarrow> Inl e
           | Inr s \<Rightarrow> (case compare_series Eq s value of Inl e \<Rightarrow> Inl e | Inr b \<Rightarrow> Inr (mask_and msk b))))"

fun filters_loop :: "dataframe \<Rightarrow> bool list \<Rightarrow> filter_spec \<Rightarrow> exn + bool list" where
  "filters_loop df msk [] = Inr msk"
| "filters_loop df msk (cc # rest) =
     (case apply_condition df msk cc of
        Inl e \<Rightarrow> Inl e
      | Inr msk' \<Rightarrow> filters_loop df msk' rest)"

definition apply_filters :: "dataframe \<Rightarrow> filter_spec \<Rightarrow> exn + dataframe" where
  "apply_filters df filters =
     (case filters_loop df (replicate (length (df_rows df)) True) filters of
        Inl e \<Rightarrow> Inl e
      | Inr msk \<Rightarrow> Inr (df_loc df msk))"

section \<open>The nested field flattener\<close>

text \<open>
  The flattener copies its argument and then works on the copy, so tables are objects in a
  store here: a heap is the list of the tables allocated so far and an address is a
  position in it. \<open>df.copy()\<close> allocates a new table with the same content.
\<close>

type_synonym heap = "dataframe list"

definition df_copy :: "heap \<Rightarrow> nat \<Rightarrow> heap \<times> nat" where
  "df_copy h df = (h @ [h ! df], length h)"

text \<open>\<open>d.get(key)\<close> on a Python dict.\<close>

definition dict_get :: "(string \<times> val) list \<Rightarrow> string \<Rightarrow> val" where
  "dict_get d key = (case map_of d key of Some v \<Rightarrow> v | None \<Rightarrow> VAtom SNull)"

text \<open>
  \<open>df[name] = series\<close>, in place: an existing column keeps its position and takes the new
  values, a new one is added last.
\<close>

definition set_column :: "dataframe \<Rightarrow> string \<Rightarrow> val list \<Rightarrow> dataframe" where
  "set_column df name s =
     \<lparr>df_columns = (if name \<in> set (df_columns df) then df_columns df else df_columns df @ [name]),
      df_rows = map (\<lambda>(r, v). (fst r, AList.update name v (snd r))) (zip (df_rows df) s)\<rparr>"

definition assign_column :: "heap \<Rightarrow> nat \<Rightarrow> string \<Rightarrow> val list \<Rightarrow> heap" where
  "assign_column h df name s = h[df := set_column (h ! df) name s]"

text \<open>The lambda of \<open>extract_nested_fields\<close>: \<open>x.get(field_name) if isinstance(x, dict) else None\<close>.\<close>

definition get_field :: "string \<Rightarrow> val \<Rightarrow> val" where
  "get_field field_name x = (case x of VObj d \<Rightarrow> dict_get d field_name | VAtom y \<Rightarrow> VAtom SNull)"

text \<open>The inner loop over \<open>field_mapping.items()\<close>, assigning into the table at \<open>df\<close>.\<close>

fun fields_loop :: "heap \<Rightarrow> nat \<Rightarrow> string \<Rightarrow> (string \<times> string) list \<Rightarrow> heap" where
  "fields_loop h df nested_col [] = h"
| "fields_loop h df nested_col ((field_name, new_col_name) # rest) =
     fields_loop
       (assign_column h df new_col_name (map (get_field field_name) (column_values (h ! df) nested_col)))
       df nested_col rest"

text \<open>The outer loop over \<open>nested_mapping.items()\<close>, with its guard \<open>nested_col in df.columns\<close>.\<close>

fun nested_loop :: "heap \<Rightarrow> nat \<Rightarrow> (string \<times> (string \<times> string) list) list \<Rightarrow> heap" where
  "nested_loop h df [] = h"
| "nested_loop h df ((nested_col, field_mapping) # rest) =
     nested_loop
       (if nested_col \<in> set (df_columns (h ! df)) then fields_loop h df nested_col field_mapping else h)
       df rest"

text \<open>\<open>extract_nested_fields\<close> returns the store it leaves and the address of its result.\<close>

definition extract_nested_fields :: "heap \<Rightarrow> nat \<Rightarrow> (string \<times> (string \<times> string) list) list \<Rightarrow> heap \<times> nat" where
  "extract_nested_fields h df nested_mapping =
     (let (h1, df1) = df_copy h df in (nested_loop h1 df1 nested_mapping, df1))"

subsection \<open>Flattening to any depth\<close>

text \<open>
  A field path mapping: a leaf is a destination column name, an inner node a mapping keyed
  by source field name.
\<close>

datatype nested = Leaf string | Node "(string \<times> nested) list"

text \<open>\<open>result.update(other)\<close> on Python dicts.\<close>

definition dict_update :: "(string \<times> val) list \<Rightarrow> (string \<times> val) list \<Rightarrow> (string \<times> val) list" where
  "dict_update result other = fold (\<lambda>kv acc. AList.update (fst kv) (snd kv) acc) other result"

text \<open>
  The loop of \<open>extract_from_dict\<close> over \<open>mapping.items()\<close>, for data that is a dict, with the
  result dict built so far; the recursive call starts from an empty result.
\<close>

fun extract_items :: "(string \<times> val) list \<Rightarrow> (string \<times> nested) list \<Rightarrow> (string \<times> val) list \<Rightarrow> (string \<times> val) list" where
  "extract_items d [] result = result"
| "extract_items d ((key, Leaf dest) # rest) result =
     extract_items d rest (AList.update dest (dict_get d key) result)"
| "extract_items d ((key, Node sub) # rest) result =
     (case dict_get d key of
        VObj nested_data \<Rightarrow> extract_items d rest (dict_update result (extract_items nested_data sub []))
      | VAtom y \<Rightarrow> extract_items d rest result)"

definition extract_from_dict :: "val \<Rightarrow> (string \<times> nested) list \<Rightarrow> (string \<times> val) list" where
  "extract_from_dict data mapping =
     (case data of VObj d \<Rightarrow> extract_items d mapping [] | VAtom y \<Rightarrow> [])"

text \<open>
  \<open>pd.DataFrame(records)\<close>: the columns are the keys in order of first appearance, the index
  is \<open>0, 1, 2, ...\<close>.
\<close>

definition first_seen :: "string list \<Rightarrow> string list" where
  "first_seen ks = rev (remdups (rev ks))"

definition from_records :: "(string \<times> val) list list \<Rightarrow> dataframe" where
  "from_records records =
     \<lparr>df_columns = first_seen (concat (map (map fst) records)),
      df_rows = zip (map int [0..<length records]) records\<rparr>"

text \<open>
  \<open>pd.json_normalize(records)\<close>: the empty table for no record, else the table of the
  records, each first flattened by pandas (a value that is itself a dict becomes columns
  with dotted names). That flattening of one record is the parameter \<open>flat\<close>; it is the
  identity on a record without dict values, and nothing proved below depends on it.
\<close>

definition json_normalize :: "((string \<times> val) list \<Rightarrow> (string \<times> val) list) \<Rightarrow> (string \<times> val) list list \<Rightarrow> dataframe" where
  "json_normalize flat records =
     (if records = [] then \<lparr>df_columns = [], df_rows = []\<rparr> else from_records (map flat records))"

text \<open>
  \<open>pd.concat([a, b], axis=1)\<close>: the columns of both, with the rows aligned on their index
  labels. Equal indexes are pasted side by side. Otherwise the result has one row for every
  label of either table (an outer join, the labels of \<open>a\<close> first), null where a table has no
  row of that label; pandas refuses to align an index with a repeated label.
\<close>

definition row_of :: "dataframe \<Rightarrow> int \<Rightarrow> (string \<times> val) list" where
  "row_of df label = (case map_of (df_rows df) label of Some r \<Rightarrow> r | None \<Rightarrow> [])"

definition concat_axis1 :: "dataframe \<Rightarrow> dataframe \<Rightarrow> exn + dataframe" where
  "concat_axis1 a b =
     (if df_index a = df_index b then
        Inr \<lparr>df_columns = df_columns a @ df_columns b,
             df_rows = map (\<lambda>(ra, rb). (fst ra, snd ra @ snd rb)) (zip (df_rows a) (df_rows b))\<rparr>
      else if \<not> distinct (df_index a) \<or> \<not> distinct (df_index b) then Inl InvalidIndexError
      else
        Inr \<lparr>df_columns = df_columns a @ df_columns b,
             df_rows = map (\<lambda>label. (label, row_of a label @ row_of b label))
                         (df_index a @ filter (\<lambda>label. label \<notin> set (df_index a)) (df_index b))\<rparr>)"

text \<open>
  The loop of \<open>extract_nested_fields_n_level\<close>. Each \<open>pd.concat\<close> makes a new table, to which
  the local name \<open>df\<close> is rebound; an exception ends the loop.
\<close>

fun n_level_loop :: "((string \<times> val) list \<Rightarrow> (string \<times> val) list) \<Rightarrow> heap \<Rightarrow> nat \<Rightarrow> (string \<times> (string \<times> nested) list) list \<Rightarrow> heap \<times> (exn + nat)" where
  "n_level_loop flat h df [] = (h, Inr df)"
| "n_level_loop flat h df ((top_column, mapping) # rest) =
     (if top_column \<notin> set (df_columns (h ! df)) then n_level_loop flat h df rest
      else
        (let extracted_series = map (\<lambda>x. extract_from_dict x mapping) (column_values (h ! df) top_column);
             extracted_df = json_normalize flat extracted_series
         in case concat_axis1 (h ! df) extracted_df of
              Inl e \<Rightarrow> (h, Inl e)
            | Inr new \<Rightarrow> n_level_loop flat (h @ [new]) (length h) rest))"

definition extract_nested_fields_n_level :: "((string \<times> val) list \<Rightarrow> (string \<times> val) list) \<Rightarrow> heap \<Rightarrow> nat \<Rightarrow> (string \<times> (string \<times> nested) list) list \<Rightarrow> heap \<times> (exn + nat)" where
  "extract_nested_fields_n_level flat h df nested_mapping =
     (let (h1, df1) = df_copy h df in n_level_loop flat h1 df1 nested_mapping)"

section \<open>The contract segments\<close>

text \<open>
  \<open>leakage_zombies\<close> reads the clock when it is called without \<open>today\<close>
  (\<open>pd.Timestamp.today().normalize()\<close>, here the day \<open>now\<close>), while
  \<open>expiring_soon_contracts\<close> uses the module's \<open>today\<close>, read once at import; both are
  parameters. \<open>pd.Timedelta(days=30)\<close> is 30 days. The three comparisons are evaluated from
  left to right and combined with \<open>&\<close>.
\<close>

definition leakage_zombies :: "int \<Rightarrow> dataframe \<Rightarrow> int option \<Rightarrow> exn + dataframe" where
  "leakage_zombies now df today =
     (let today = (case today of None \<Rightarrow> now | Some t \<Rightarrow> t) in
      case get_column df ''EndDate'' of Inl e \<Rightarrow> Inl e | Inr end_date \<Rightarrow>
      (case compare_series Le end_date (OScalar (SDate (today - 30))) of Inl e \<Rightarrow> Inl e | Inr m1 \<Rightarrow>
      (case get_column df ''Status'' of Inl e \<Rightarrow> Inl e | Inr status \<Rightarrow>
      (case compare_series Eq status (OScalar (SStr ''Activated'')) of Inl e \<Rightarrow> Inl e | Inr m2 \<Rightarrow>
      (case get_column df ''SBQQ__RenewalOpportunity__c'' of Inl e \<Rightarrow> Inl e | Inr renewal \<Rightarrow>
         Inr (df_loc df (mask_and (mask_and m1 m2) (isna renewal))))))))"

definition expiring_soon_contracts :: "int \<Rightarrow> dataframe \<Rightarrow> exn + dataframe" where
  "expiring_soon_contracts today df =
     (case get_column df ''EndDate'' of Inl e \<Rightarrow> Inl e | Inr end_date \<Rightarrow>
      (case compare_series Ge end_date (OScalar (SDate (today - 30))) of Inl e \<Rightarrow> Inl e | Inr m1 \<Rightarrow>
      (case get_column df ''Status'' of Inl e \<Rightarrow> Inl e | Inr status \<Rightarrow>
      (case compare_series Eq status (OScalar (SStr ''Activated'')) of Inl e \<Rightarrow> Inl e | Inr m2 \<Rightarrow>
      (case get_column df ''SBQQ__RenewalOpportunity__c'' of Inl e \<Rightarrow> Inl e | Inr renewal \<Rightarrow>
         Inr (df_loc df (mask_and (mask_and m1 m2) (isna renewal))))))))"

section \<open>Pie segments from the narrative output\<close>

text \<open>
  A record of the narrative collaborator is a JSON object. \<open>item.get(key, "")\<close> gives the
  empty string for a record without the key.
\<close>

definition get_or :: "(string \<times> val) list \<Rightarrow> string \<Rightarrow> val \<Rightarrow> val" where
  "get_or d key fallback = (case map_of d key of Some v \<Rightarrow> v | None \<Rightarrow> fallback)"

text \<open>
  A character is a code point below 256. The white space of \<open>\s\<close> and of \<open>str.strip()\<close>
  there: the ASCII white space, the separators \<open>0x1C\<close> to \<open>0x1F\<close>, next line \<open>0x85\<close> and the
  no-break space \<open>0xA0\<close>. The decimal digits of \<open>\d\<close> there are \<open>0\<close> to \<open>9\<close>.
\<close>

definition is_space :: "char \<Rightarrow> bool" where
  "is_space c = (c \<in> set [CHR '' '', CHR 0x09, CHR 0x0A, CHR 0x0B, CHR 0x0C, CHR 0x0D,
                           CHR 0x1C, CHR 0x1D, CHR 0x1E, CHR 0x1F, CHR 0x85, CHR 0xA0])"

definition is_digit :: "char \<Rightarrow> bool" where
  "is_digit c = (c \<in> set ''0123456789'')"

definition strip :: "string \<Rightarrow> string" where
  "strip s = rev (dropWhile is_space (rev (dropWhile is_space s)))"

text \<open>
  \<open>re.sub(r"\s*\(\d+\)$", "", s)\<close>: a count in parentheses at the end of the string, or just
  before a newline that ends it, is removed with the white space in front of it. The
  string is read from its end.
\<close>

definition sub_count :: "string \<Rightarrow> string" where
  "sub_count s =
     (let r = rev s;
          nl = (case r of [] \<Rightarrow> False | c # cs \<Rightarrow> c = CHR 0x0A);
          core = (if nl then tl r else r)
      in case core of
           [] \<Rightarrow> s
         | c # cs \<Rightarrow>
             (let after = dropWhile is_digit cs in
              if c = CHR '')'' \<and> takeWhile is_digit cs \<noteq> [] \<and>
                 (case after of [] \<Rightarrow> False | p # ps \<Rightarrow> p = CHR ''('')
              then rev (dropWhile is_space (tl after)) @ (if nl then [CHR 0x0A] else [])
              else s))"

text \<open>
  The first loop of \<open>build_pie_segments\<close>: the lookup from base title to description.
  \<open>re.sub\<close> raises \<open>TypeError\<close> on a title that is not a string.
\<close>

fun description_loop :: "(string \<times> val) list \<Rightarrow> (string \<times> val) list list \<Rightarrow> exn + (string \<times> val) list" where
  "description_loop description_map [] = Inr description_map"
| "description_loop description_map (item # rest) =
     (case get_or item ''title'' (VAtom (SStr [])) of
        VAtom (SStr raw_title) \<Rightarrow>
          description_loop
            (AList.update (strip (sub_count raw_title)) (get_or item ''description'' (VAtom (SStr []))) description_map)
            rest
      | _ \<Rightarrow> Inl TypeError)"

record segment =
  title :: string
  count :: nat
  description :: val
  color :: string

text \<open>
  The second loop, over \<open>enumerate(pie_labels)\<close>; \<open>label_to_df_map.get(label)\<close> is \<open>None\<close> for
  a label the dict does not hold.
\<close>

fun segments_loop :: "(string \<times> val) list \<Rightarrow> (string \<rightharpoonup> dataframe) \<Rightarrow> string list \<Rightarrow> nat \<Rightarrow> string list \<Rightarrow> segment list" where
  "segments_loop description_map label_to_df_map pie_colors idx [] = []"
| "segments_loop description_map label_to_df_map pie_colors idx (label # rest) =
     (case label_to_df_map label of
        None \<Rightarrow> segments_loop description_map label_to_df_map pie_colors (Suc idx) rest
      | Some df \<Rightarrow>
          \<lparr>title = label, count = len df,
           description = get_or description_map label (VAtom (SStr [])),
           color = (if idx < length pie_colors then pie_colors ! idx else ''#CCCCCC'')\<rparr>
          # segments_loop description_map label_to_df_map pie_colors (Suc idx) rest)"

definition build_pie_segments :: "(string \<times> val) list list \<Rightarrow> (string \<rightharpoonup> dataframe) \<Rightarrow> string list \<Rightarrow> string list \<Rightarrow> exn + segment list" where
  "build_pie_segments llm_output label_to_df_map pie_labels pie_colors =
     (case description_loop [] llm_output of
        Inl e \<Rightarrow> Inl e
      | Inr description_map \<Rightarrow> Inr (segments_loop description_map label_to_df_map pie_colors 0 pie_labels))"

section \<open>Auxiliary definitions for the filter engine\<close>




text \<open>
  The series each branch of the operator chain computes before \<open>mask &=\<close>, and the
  recognised operator symbols; \<open>apply_op\<close> is shown below to be this series and-ed into
  the mask.
\<close>

definition series_of_op :: "string \<Rightarrow> val list \<Rightarrow> operand \<Rightarrow> exn + bool list" where
  "series_of_op op s value =
     (if op = ''isna'' then Inr (isna s)
      else if op = ''notna'' then Inr (notna s)
      else if op = ''='' then compare_series Eq s value
      else if op = ''!='' then compare_series Ne s value
      else if op = ''in'' then isin s value
      else if op = ''>='' then compare_series Ge s value
      else if op = ''<='' then compare_series Le s value
      else if op = ''>'' then compare_series Gt s value
      else compare_series Lt s value)"

definition known_ops :: "string list" where
  "known_ops = [''='', ''!='', ''in'', ''>='', ''<='', ''>'', ''<'', ''isna'', ''notna'']"

definition op_series :: "dataframe \<Rightarrow> string \<Rightarrow> string \<times> operand \<Rightarrow> exn + bool list" where
  "op_series df column ov =
     (if fst ov \<in> set known_ops
      then (case get_column df column of Inl e \<Rightarrow> Inl e | Inr s \<Rightarrow> series_of_op (fst ov) s (snd ov))
      else Inl (ValueError (''Unsupported operator: '' @ fst ov)))"

text \<open>Example tables: the renewal scenario of five contracts, and three amounts.\<close>

definition renewal_table :: dataframe where
  "renewal_table =
     \<lparr>df_columns = [''Status'', ''RenewalOpportunity''],
      df_rows =
        [(0, [(''Status'', VAtom (SStr ''Activated'')), (''RenewalOpportunity'', VAtom SNull)]),
         (1, [(''Status'', VAtom (SStr ''Activated'')), (''RenewalOpportunity'', VAtom (SStr ''X''))]),
         (2, [(''Status'', VAtom (SStr ''Draft'')), (''RenewalOpportunity'', VAtom SNull)]),
         (3, [(''Status'', VAtom (SStr ''Activated'')), (''RenewalOpportunity'', VAtom SNull)]),
         (4, [(''Status'', VAtom (SStr ''Activated'')), (''RenewalOpportunity'', VAtom (SStr ''Y''))])]\<rparr>"


definition amount_table :: dataframe where
  "amount_table =
     \<lparr>df_columns = [''Amount''],
      df_rows = [(0, [(''Amount'', VAtom (SNum 50))]), (1, [(''Amount'', VAtom (SNum 150))]),
                 (2, [(''Amount'', VAtom (SNum 100))])]\<rparr>"

section \<open>Auxiliary definitions for the flattener\<close>

text \<open>The destination column names a one-level mapping writes, in the order it writes them.\<close>

definition destinations :: "(string \<times> (string \<times> string) list) list \<Rightarrow> string list" where
  "destinations nested_mapping = concat (map (\<lambda>e. map snd (snd e)) nested_mapping)"



text \<open>
  Example tables: two accounts, the second without its relationship; contracts before and
  after the filter \<open>{"Status": "Activated"}\<close>; and a table with a column called \<open>Name\<close>.
\<close>

definition accounts_table :: dataframe where
  "accounts_table =
     \<lparr>df_columns = [''Id'', ''Account''],
      df_rows =
        [(0, [(''Id'', VAtom (SStr ''001'')), (''Account'', VObj [(''Name'', VAtom (SStr ''Acme''))])]),
         (1, [(''Id'', VAtom (SStr ''002'')), (''Account'', VAtom SNull)])]\<rparr>"

definition account_mapping :: "(string \<times> (string \<times> string) list) list" where
  "account_mapping = [(''Account'', [(''Name'', ''Account Name'')])]"

definition account_paths :: "(string \<times> (string \<times> nested) list) list" where
  "account_paths = [(''Account'', [(''Name'', Leaf ''Account Name'')])]"

definition named_table :: dataframe where
  "named_table =
     \<lparr>df_columns = [''Name'', ''Account''],
      df_rows =
        [(0, [(''Name'', VAtom (SStr ''Contract A'')), (''Account'', VObj [(''Name'', VAtom (SStr ''Acme''))])])]\<rparr>"

definition contracts_table :: dataframe where
  "contracts_table =
     \<lparr>df_columns = [''Status'', ''Account''],
      df_rows =
        [(0, [(''Status'', VAtom (SStr ''Draft'')), (''Account'', VObj [(''Name'', VAtom (SStr ''Acme''))])]),
         (1, [(''Status'', VAtom (SStr ''Activated'')), (''Account'', VObj [(''Name'', VAtom (SStr ''Globex''))])])]\<rparr>"

definition activated_contracts :: dataframe where
  "activated_contracts =
     \<lparr>df_columns = [''Status'', ''Account''],
      df_rows =
        [(1, [(''Status'', VAtom (SStr ''Activated'')), (''Account'', VObj [(''Name'', VAtom (SStr ''Globex''))])])]\<rparr>"


text \<open>
  The destinations the one-level flattener really writes on a table with the given columns:
  those of the entries whose source column is there when the entry is reached. An entry is
  reached after the destinations of the entries before it have become columns.
\<close>

fun written_columns :: "string list \<Rightarrow> (string \<times> (string \<times> string) list) list \<Rightarrow> string list" where
  "written_columns cols [] = []"
| "written_columns cols ((nested_col, field_mapping) # rest) =
     (if nested_col \<in> set cols
      then map snd field_mapping @ written_columns (cols @ map snd field_mapping) rest
      else written_columns cols rest)"



section \<open>Auxiliary definitions for the segments\<close>

text \<open>Four contracts around the day 100: ended 40, 30 and 20 days before it, and a draft.\<close>

definition zombie_table :: dataframe where
  "zombie_table =
     \<lparr>df_columns = [''EndDate'', ''Status'', ''SBQQ__RenewalOpportunity__c''],
      df_rows =
        [(0, [(''EndDate'', VAtom (SDate 60)), (''Status'', VAtom (SStr ''Activated'')),
              (''SBQQ__RenewalOpportunity__c'', VAtom SNull)]),
         (1, [(''EndDate'', VAtom (SDate 70)), (''Status'', VAtom (SStr ''Activated'')),
              (''SBQQ__RenewalOpportunity__c'', VAtom SNull)]),
         (2, [(''EndDate'', VAtom (SDate 80)), (''Status'', VAtom (SStr ''Activated'')),
              (''SBQQ__RenewalOpportunity__c'', VAtom SNull)]),
         (3, [(''EndDate'', VAtom SNull), (''Status'', VAtom (SStr ''Draft'')),
              (''SBQQ__RenewalOpportunity__c'', VAtom (SStr ''006A''))])]\<rparr>"


definition string_titles :: "(string \<times> val) list list \<Rightarrow> bool" where
  "string_titles llm_output =
     list_all (\<lambda>item. case map_of item ''title'' of
                        None \<Rightarrow> True
                      | Some v \<Rightarrow> (case v of VAtom (SStr s) \<Rightarrow> True | _ \<Rightarrow> False)) llm_output"



section \<open>Properties of the filter engine\<close>

lemma df_loc_all_true: "df_loc df (replicate (length (df_rows df)) True) = df"
proof -
  have "map fst (filter snd (zip xs (replicate (length xs) True))) = xs" for xs :: "row list"
    by (induction xs) simp_all
  then show ?thesis by (simp add: df_loc_def)
qed

text \<open>
  C4. Filtering with the empty filter specification returns a table equal to the input:
  the same columns and the same rows, with their index labels, in the same order.
\<close>

theorem apply_filters_empty: "apply_filters df [] = Inr df"
  by (simp add: apply_filters_def df_loc_all_true)

lemma collect_Inr:
  "collect xs = Inr vs \<Longrightarrow> length vs = length xs \<and> (\<forall>i<length xs. xs ! i = Inr (vs ! i))"
proof (induction xs arbitrary: vs)
  case Nil then show ?case by simp
next
  case (Cons x xs)
  then show ?case
    by (auto split: sum.splits simp: nth_Cons split: nat.splits)
qed

lemma mask_and_length: "length b = length m \<Longrightarrow> length (mask_and m b) = length m"
  by (simp add: mask_and_def)

lemma mask_and_nth: "i < length m \<Longrightarrow> length b = length m \<Longrightarrow> mask_and m b ! i = (m ! i \<and> b ! i)"
  by (simp add: mask_and_def)




lemma apply_op_eq:
  "apply_op df c m ov = (case op_series df c ov of Inl e \<Rightarrow> Inl e | Inr b \<Rightarrow> Inr (mask_and m b))"
  unfolding apply_op_def op_series_def series_of_op_def known_ops_def Let_def
  by (simp split: sum.splits)




lemma mask_and_true_left: "length b = n \<Longrightarrow> mask_and (replicate n True) b = b"
  by (induction b arbitrary: n) (auto simp: mask_and_def)






lemma df_loc_rows:
  "length m = length (df_rows df) \<Longrightarrow>
   set (df_rows (df_loc df m)) = {df_rows df ! i |i. i < length (df_rows df) \<and> m ! i}"
proof -
  assume l: "length m = length (df_rows df)"
  have "set (map fst (filter snd (zip xs m))) = {xs ! i |i. i < length xs \<and> m ! i}"
    if "length m = length xs" for xs :: "row list"
    using that
    by (auto simp: set_zip in_set_conv_nth image_iff) force+
  from this[OF l] show ?thesis by (simp add: df_loc_def)
qed








lemmas filter_eval =
  apply_filters_def apply_condition_def apply_op_def get_column_def column_values_def cell_def
  compare_series_def
  compare_val_def compare_scalar_def py_eq_def py_ord_def isna_def notna_def isin_def member_py_def
  mask_and_def df_loc_def Let_def




lemma filter_by_series:
  "map fst (filter snd (zip xs (map P xs))) = filter P xs"
  by (induction xs) simp_all

lemma isna_filter:
  assumes "c \<in> set (df_columns df)"
  shows "apply_filters df [(c, Ops [(''isna'', v)])] =
           Inr (df\<lparr>df_rows := filter (\<lambda>r. cell (snd r) c = VAtom SNull) (df_rows df)\<rparr>)"
proof -
  have "mask_and (replicate (length xs) True) (map P xs) = map P xs" for P and xs :: "row list"
    by (simp add: mask_and_true_left)
  then show ?thesis using assms
    by (simp add: apply_filters_def apply_condition_def apply_op_def get_column_def
        column_values_def isna_def df_loc_def filter_by_series comp_def)
qed

lemma notna_filter:
  assumes "c \<in> set (df_columns df)"
  shows "apply_filters df [(c, Ops [(''notna'', v)])] =
           Inr (df\<lparr>df_rows := filter (\<lambda>r. cell (snd r) c \<noteq> VAtom SNull) (df_rows df)\<rparr>)"
proof -
  have "mask_and (replicate (length xs) True) (map P xs) = map P xs" for P and xs :: "row list"
    by (simp add: mask_and_true_left)
  then show ?thesis using assms
    by (simp add: apply_filters_def apply_condition_def apply_op_def get_column_def
        column_values_def notna_def df_loc_def filter_by_series comp_def)
qed

text \<open>
  C8. For a column present in the table, the \<open>isna\<close> filter and the \<open>notna\<close> filter on it
  (whatever their operands) both succeed, and their results are disjoint, together hold
  every row of the table, and have sizes that sum to \<open>len\<close> of the table.
\<close>

theorem isna_notna_partition:
  assumes "c \<in> set (df_columns df)"
  shows "\<exists>a b. apply_filters df [(c, Ops [(''isna'', v)])] = Inr a \<and>
               apply_filters df [(c, Ops [(''notna'', w)])] = Inr b \<and>
               set (df_rows a) \<inter> set (df_rows b) = {} \<and>
               set (df_rows a) \<union> set (df_rows b) = set (df_rows df) \<and>
               len a + len b = len df"
proof -
  let ?P = "\<lambda>r :: row. cell (snd r) c = VAtom SNull"
  have "length (filter ?P xs) + length (filter (\<lambda>r. \<not> ?P r) xs) = length xs" for xs
    by (rule sum_length_filter_compl)
  then show ?thesis
    using isna_filter[OF assms, of v] notna_filter[OF assms, of w]
    by (auto simp: len_def)
qed

theorem isna_notna_partition_witness:
  "\<exists>a b. apply_filters renewal_table [(''RenewalOpportunity'', Ops [(''isna'', OScalar (SBool True))])] = Inr a \<and>
         apply_filters renewal_table [(''RenewalOpportunity'', Ops [(''notna'', OScalar (SBool True))])] = Inr b \<and>
         len a = 3 \<and> len b = 2 \<and> len renewal_table = 5 \<and>
         set (df_rows a) \<inter> set (df_rows b) = {}"
proof -
  have c: "''RenewalOpportunity'' \<in> set (df_columns renewal_table)"
    by (simp add: renewal_table_def)
  from isna_notna_partition[OF c, of "OScalar (SBool True)" "OScalar (SBool True)"]
  obtain a b where
    a: "apply_filters renewal_table [(''RenewalOpportunity'', Ops [(''isna'', OScalar (SBool True))])] = Inr a"
    and b: "apply_filters renewal_table [(''RenewalOpportunity'', Ops [(''notna'', OScalar (SBool True))])] = Inr b"
    and d: "set (df_rows a) \<inter> set (df_rows b) = {}" by blast
  have "len a = 3" using a by (auto simp: renewal_table_def filter_eval len_def)
  moreover have "len b = 2" using b by (auto simp: renewal_table_def filter_eval len_def)
  moreover have "len renewal_table = 5" by (simp add: renewal_table_def len_def)
  ultimately show ?thesis using a b d by blast
qed

subsection \<open>Errors of the filter engine\<close>

lemma unknown_op_series:
  "op \<notin> set known_ops \<Longrightarrow> op_series df c (op, v) = Inl (ValueError (''Unsupported operator: '' @ op))"
  by (simp add: op_series_def)

lemma ops_loop_unknown:
  "(op, v) \<in> set ops \<Longrightarrow> op \<notin> set known_ops \<Longrightarrow> \<exists>e. ops_loop df c m ops = Inl e"
proof (induction ops arbitrary: m)
  case Nil then show ?case by simp
next
  case (Cons ov rest)
  show ?case
  proof (cases "ov = (op, v)")
    case True
    then show ?thesis using Cons.prems(2) by (simp add: apply_op_eq unknown_op_series)
  next
    case False
    with Cons.prems have "(op, v) \<in> set rest" by simp
    from Cons.IH[OF this Cons.prems(2)] show ?thesis by (auto split: sum.splits)
  qed
qed

lemma filters_loop_unknown:
  "(c, Ops ops) \<in> set filters \<Longrightarrow> (op, v) \<in> set ops \<Longrightarrow> op \<notin> set known_ops \<Longrightarrow>
   \<exists>e. filters_loop df m filters = Inl e"
proof (induction filters arbitrary: m)
  case Nil then show ?case by simp
next
  case (Cons cc rest)
  show ?case
  proof (cases "cc = (c, Ops ops)")
    case True
    from ops_loop_unknown[OF Cons.prems(2,3)] obtain e where "ops_loop df c m ops = Inl e"
      by blast
    then show ?thesis using True by (simp add: apply_condition_def)
  next
    case False
    with Cons.prems have "(c, Ops ops) \<in> set rest" by simp
    from Cons.IH[OF this Cons.prems(2,3)] show ?thesis by (auto split: sum.splits)
  qed
qed

lemma ops_loop_append:
  "ops_loop df c m ops1 = Inr m1 \<Longrightarrow> ops_loop df c m (ops1 @ ops2) = ops_loop df c m1 ops2"
  by (induction ops1 arbitrary: m) (auto split: sum.splits)

lemma filters_loop_append:
  "filters_loop df m pre = Inr m1 \<Longrightarrow> filters_loop df m (pre @ post) = filters_loop df m1 post"
  by (induction pre arbitrary: m) (auto split: sum.splits)

text \<open>
  C2 (as amended). A filter specification holding an operator symbol outside the
  recognised set never yields a table. The exception is \<open>ValueError\<close> with the message
  \<open>Unsupported operator: \<close> followed by the symbol whenever everything the loops reach before
  that symbol evaluates without an exception; in particular a specification made of that
  one operator, such as \<open>{"Amount": {"~=": 5}}\<close>, always raises it.
\<close>

theorem unsupported_operator_raises:
  assumes "op \<notin> set known_ops"
  shows "((c, Ops ops) \<in> set filters \<and> (op, v) \<in> set ops \<longrightarrow> (\<exists>e. apply_filters df filters = Inl e)) \<and>
         (filters_loop df (replicate (length (df_rows df)) True) pre = Inr m \<and>
          ops_loop df c m ops1 = Inr m1 \<longrightarrow>
            apply_filters df (pre @ (c, Ops (ops1 @ (op, v) # ops2)) # post) =
              Inl (ValueError (''Unsupported operator: '' @ op))) \<and>
         apply_filters df [(c, Ops [(op, v)])] = Inl (ValueError (''Unsupported operator: '' @ op))"
proof (intro conjI impI)
  assume "(c, Ops ops) \<in> set filters \<and> (op, v) \<in> set ops"
  then obtain e where "filters_loop df (replicate (length (df_rows df)) True) filters = Inl e"
    using filters_loop_unknown assms by blast
  then show "\<exists>e. apply_filters df filters = Inl e" by (simp add: apply_filters_def)
next
  assume a: "filters_loop df (replicate (length (df_rows df)) True) pre = Inr m \<and>
          ops_loop df c m ops1 = Inr m1"
  then have "ops_loop df c m (ops1 @ (op, v) # ops2) = Inl (ValueError (''Unsupported operator: '' @ op))"
    using assms by (simp add: ops_loop_append apply_op_eq unknown_op_series)
  then show "apply_filters df (pre @ (c, Ops (ops1 @ (op, v) # ops2)) # post) =
              Inl (ValueError (''Unsupported operator: '' @ op))"
    using a by (simp add: apply_filters_def filters_loop_append apply_condition_def)
next
  show "apply_filters df [(c, Ops [(op, v)])] = Inl (ValueError (''Unsupported operator: '' @ op))"
    using assms by (simp add: apply_filters_def apply_condition_def apply_op_eq unknown_op_series)
qed

theorem unsupported_operator_raises_witness:
  "apply_filters amount_table [(''Amount'', Ops [(''~='', OScalar (SNum 5))])] =
     Inl (ValueError ''Unsupported operator: ~='') \<and>
   apply_filters amount_table
     [(''Amount'', Ops [(''>'', OScalar (SNum 60)), (''~='', OScalar (SNum 5))])] =
     Inl (ValueError ''Unsupported operator: ~='')"
proof -
  have k: "''~='' \<notin> set known_ops" by (simp add: known_ops_def)
  have p: "filters_loop amount_table (replicate (length (df_rows amount_table)) True) [] =
             Inr (replicate (length (df_rows amount_table)) True)" by simp
  have q: "ops_loop amount_table ''Amount'' (replicate (length (df_rows amount_table)) True)
             [(''>'', OScalar (SNum 60))] = Inr [False, True, True]"
    by (simp add: amount_table_def filter_eval)
  from unsupported_operator_raises[OF k, of "''Amount''" "[]" "[]" "OScalar (SNum 5)" amount_table "[]" _ "[(''>'', OScalar (SNum 60))]" _ "[]" "[]"] p q
  show ?thesis by simp
qed

text \<open>
  The claim as stated fails: an earlier condition on a column the table lacks raises
  \<open>KeyError\<close> before the unrecognised symbol is reached.
\<close>

theorem unsupported_operator_counterexample:
  "(''Amount'', Ops [(''~='', OScalar (SNum 5))]) \<in>
       set [(''Region'', Lit (OScalar (SStr ''EU''))), (''Amount'', Ops [(''~='', OScalar (SNum 5))])] \<and>
   ''~='' \<notin> set known_ops \<and>
   apply_filters amount_table
     [(''Region'', Lit (OScalar (SStr ''EU''))), (''Amount'', Ops [(''~='', OScalar (SNum 5))])] =
     Inl (KeyError ''Region'')"
  by (simp add: known_ops_def amount_table_def filter_eval)

text \<open>
  C3 (as amended). When the conditions before it evaluate without an exception, a
  condition on a column the table lacks raises \<open>KeyError\<close> naming the column, for a bare
  literal and for an operator mapping whose first operator is any recognised one,
  \<open>isna\<close> and \<open>notna\<close> included: the missing column is neither read as null nor taken as
  false.
\<close>

theorem missing_column_raises:
  assumes "c \<notin> set (df_columns df)"
    and "filters_loop df (replicate (length (df_rows df)) True) pre = Inr m"
  shows "apply_filters df (pre @ (c, Lit v) # post) = Inl (KeyError c) \<and>
         (op \<in> set known_ops \<longrightarrow>
            apply_filters df (pre @ (c, Ops ((op, v) # ops)) # post) = Inl (KeyError c))"
  using assms
  by (simp add: apply_filters_def filters_loop_append apply_condition_def apply_op_eq
      op_series_def get_column_def)

theorem missing_column_raises_witness:
  "apply_filters amount_table [(''Region'', Lit (OScalar (SStr ''EU'')))] = Inl (KeyError ''Region'') \<and>
   apply_filters amount_table [(''Region'', Ops [(''isna'', OScalar (SBool True))])] = Inl (KeyError ''Region'') \<and>
   apply_filters amount_table [(''Region'', Ops [(''notna'', OScalar (SBool True))])] = Inl (KeyError ''Region'')"
proof -
  have c: "''Region'' \<notin> set (df_columns amount_table)" by (simp add: amount_table_def)
  have p: "filters_loop amount_table (replicate (length (df_rows amount_table)) True) [] =
             Inr (replicate (length (df_rows amount_table)) True)" by simp
  from missing_column_raises[OF c p, of "OScalar (SStr ''EU'')" "[]" "''isna''" "[]"]
       missing_column_raises[OF c p, of "OScalar (SBool True)" "[]" "''isna''" "[]"]
       missing_column_raises[OF c p, of "OScalar (SBool True)" "[]" "''notna''" "[]"]
  show ?thesis by (simp add: known_ops_def)
qed

text \<open>
  The claim as stated fails: \<open>isna\<close> on a missing column does not match every row, it
  raises \<open>KeyError\<close>, and so does \<open>notna\<close>.
\<close>

theorem missing_column_isna_counterexample:
  "''Region'' \<notin> set (df_columns amount_table) \<and>
   apply_filters amount_table [(''Region'', Ops [(''isna'', OScalar (SBool True))])] \<noteq> Inr amount_table \<and>
   apply_filters amount_table [(''Region'', Ops [(''isna'', OScalar (SBool True))])] = Inl (KeyError ''Region'') \<and>
   apply_filters amount_table [(''Region'', Ops [(''notna'', OScalar (SBool True))])] = Inl (KeyError ''Region'')"
  by (simp add: amount_table_def filter_eval)

section \<open>Properties of the flattener\<close>

lemma set_column_rows:
  "length s = length (df_rows df) \<Longrightarrow>
   df_index (set_column df n s) = df_index df \<and> len (set_column df n s) = len df"
  by (auto simp: set_column_def df_index_def len_def list_eq_iff_nth_eq)

lemma cell_update_other: "c \<noteq> n \<Longrightarrow> cell (AList.update n v r) c = cell r c"
  by (simp add: cell_def update_conv')


lemma set_column_other:
  "length s = length (df_rows df) \<Longrightarrow> c \<noteq> n \<Longrightarrow>
   column_values (set_column df n s) c = column_values df c"
  by (auto simp: set_column_def column_values_def cell_update_other list_eq_iff_nth_eq)


lemma set_column_columns:
  "set (df_columns (set_column df n s)) = insert n (set (df_columns df))"
  by (auto simp: set_column_def)

lemma set_column_prefix: "prefix (df_columns df) (df_columns (set_column df n s))"
  by (simp add: set_column_def)

lemma column_values_length: "length (column_values df c) = length (df_rows df)"
  by (simp add: column_values_def)

text \<open>The inner loop writes only the table at its address, and only destination columns.\<close>

lemma fields_loop_frame:
  "df < length h \<Longrightarrow>
   length (fields_loop h df nc fm) = length h \<and>
   (\<forall>b. b \<noteq> df \<longrightarrow> fields_loop h df nc fm ! b = h ! b) \<and>
   df_index (fields_loop h df nc fm ! df) = df_index (h ! df) \<and>
   len (fields_loop h df nc fm ! df) = len (h ! df) \<and>
   prefix (df_columns (h ! df)) (df_columns (fields_loop h df nc fm ! df)) \<and>
   set (df_columns (fields_loop h df nc fm ! df)) = set (df_columns (h ! df)) \<union> snd ` set fm \<and>
   (\<forall>c. c \<notin> snd ` set fm \<longrightarrow>
        column_values (fields_loop h df nc fm ! df) c = column_values (h ! df) c)"
proof (induction fm arbitrary: h)
  case Nil then show ?case by simp
next
  case (Cons fd rest)
  obtain field dest where fd: "fd = (field, dest)" by (cases fd)
  let ?s = "map (get_field field) (column_values (h ! df) nc)"
  let ?h1 = "assign_column h df dest ?s"
  have ls: "length ?s = length (df_rows (h ! df))" by (simp add: column_values_length)
  have l1: "df < length ?h1" using Cons.prems by (simp add: assign_column_def)
  have at: "?h1 ! df = set_column (h ! df) dest ?s" using Cons.prems by (simp add: assign_column_def)
  have oth: "\<forall>b. b \<noteq> df \<longrightarrow> ?h1 ! b = h ! b" by (simp add: assign_column_def)
  have len1: "length ?h1 = length h" by (simp add: assign_column_def)
  define h2 where "h2 = fields_loop ?h1 df nc rest"
  from Cons.IH[OF l1] have
    i1: "length h2 = length ?h1" and
    i2: "\<forall>b. b \<noteq> df \<longrightarrow> h2 ! b = ?h1 ! b" and
    i3: "df_index (h2 ! df) = df_index (?h1 ! df)" and
    i4: "len (h2 ! df) = len (?h1 ! df)" and
    i5: "prefix (df_columns (?h1 ! df)) (df_columns (h2 ! df))" and
    i6: "set (df_columns (h2 ! df)) = set (df_columns (?h1 ! df)) \<union> snd ` set rest" and
    i7: "\<forall>c. c \<notin> snd ` set rest \<longrightarrow> column_values (h2 ! df) c = column_values (?h1 ! df) c"
    unfolding h2_def by blast+
  have eq: "fields_loop h df nc (fd # rest) = h2" using fd by (simp add: h2_def)
  show ?case unfolding eq
  proof (intro conjI allI impI)
    show "length h2 = length h" using i1 len1 by simp
    show "h2 ! b = h ! b" if "b \<noteq> df" for b using i2 oth that by simp
    show "df_index (h2 ! df) = df_index (h ! df)"
      using i3 at set_column_rows[OF ls] by simp
    show "len (h2 ! df) = len (h ! df)"
      using i4 at set_column_rows[OF ls] by simp
    have "prefix (df_columns (h ! df)) (df_columns (?h1 ! df))"
      unfolding at by (rule set_column_prefix)
    then show "prefix (df_columns (h ! df)) (df_columns (h2 ! df))"
      using i5 by (rule prefix_order.trans)
    have "set (df_columns (?h1 ! df)) = insert dest (set (df_columns (h ! df)))"
      unfolding at by (rule set_column_columns)
    then show "set (df_columns (h2 ! df)) = set (df_columns (h ! df)) \<union> snd ` set (fd # rest)"
      unfolding i6 using fd by auto
    show "column_values (h2 ! df) c = column_values (h ! df) c"
      if "c \<notin> snd ` set (fd # rest)" for c
    proof -
      from that fd have c: "c \<noteq> dest" "c \<notin> snd ` set rest" by auto
      have "column_values (h2 ! df) c = column_values (?h1 ! df) c" using i7 c(2) by blast
      also have "\<dots> = column_values (h ! df) c" unfolding at using set_column_other[OF ls c(1)] .
      finally show ?thesis .
    qed
  qed
qed

lemma nested_loop_frame:
  "df < length h \<Longrightarrow>
   length (nested_loop h df M) = length h \<and>
   (\<forall>b. b \<noteq> df \<longrightarrow> nested_loop h df M ! b = h ! b) \<and>
   df_index (nested_loop h df M ! df) = df_index (h ! df) \<and>
   len (nested_loop h df M ! df) = len (h ! df) \<and>
   prefix (df_columns (h ! df)) (df_columns (nested_loop h df M ! df)) \<and>
   set (df_columns (nested_loop h df M ! df)) \<subseteq> set (df_columns (h ! df)) \<union> set (destinations M) \<and>
   (\<forall>c. c \<notin> set (destinations M) \<longrightarrow>
        column_values (nested_loop h df M ! df) c = column_values (h ! df) c)"
proof (induction M arbitrary: h)
  case Nil then show ?case by simp
next
  case (Cons e rest)
  obtain nc fm where e: "e = (nc, fm)" by (cases e)
  let ?h1 = "if nc \<in> set (df_columns (h ! df)) then fields_loop h df nc fm else h"
  note fl = fields_loop_frame[OF Cons.prems, of nc fm]
  have l1: "df < length ?h1" using fl Cons.prems by simp
  have len1: "length ?h1 = length h" using fl by simp
  have oth: "\<forall>b. b \<noteq> df \<longrightarrow> ?h1 ! b = h ! b" using fl by simp
  have idx: "df_index (?h1 ! df) = df_index (h ! df)" "len (?h1 ! df) = len (h ! df)" using fl by simp_all
  have pre: "prefix (df_columns (h ! df)) (df_columns (?h1 ! df))" using fl by simp
  have cols: "set (df_columns (?h1 ! df)) \<subseteq> set (df_columns (h ! df)) \<union> snd ` set fm" using fl by auto
  have vals: "\<forall>c. c \<notin> snd ` set fm \<longrightarrow> column_values (?h1 ! df) c = column_values (h ! df) c"
    using fl by simp
  have dest: "set (destinations (e # rest)) = snd ` set fm \<union> set (destinations rest)"
    using e by (simp add: destinations_def)
  define h2 where "h2 = nested_loop ?h1 df rest"
  from Cons.IH[OF l1] have
    i1: "length h2 = length ?h1" and
    i2: "\<forall>b. b \<noteq> df \<longrightarrow> h2 ! b = ?h1 ! b" and
    i3: "df_index (h2 ! df) = df_index (?h1 ! df)" and
    i4: "len (h2 ! df) = len (?h1 ! df)" and
    i5: "prefix (df_columns (?h1 ! df)) (df_columns (h2 ! df))" and
    i6: "set (df_columns (h2 ! df)) \<subseteq> set (df_columns (?h1 ! df)) \<union> set (destinations rest)" and
    i7: "\<forall>c. c \<notin> set (destinations rest) \<longrightarrow> column_values (h2 ! df) c = column_values (?h1 ! df) c"
    unfolding h2_def by blast+
  have eq: "nested_loop h df (e # rest) = h2" using e by (simp add: h2_def)
  show ?case unfolding eq dest
  proof (intro conjI allI impI)
    show "length h2 = length h" using i1 len1 by simp
    show "h2 ! b = h ! b" if "b \<noteq> df" for b using i2 oth that by simp
    show "df_index (h2 ! df) = df_index (h ! df)" using i3 idx by simp
    show "len (h2 ! df) = len (h ! df)" using i4 idx by simp
    show "prefix (df_columns (h ! df)) (df_columns (h2 ! df))"
      using pre i5 by (rule prefix_order.trans)
    show "set (df_columns (h2 ! df)) \<subseteq> set (df_columns (h ! df)) \<union> (snd ` set fm \<union> set (destinations rest))"
      using i6 cols by blast
    show "column_values (h2 ! df) c = column_values (h ! df) c"
      if "c \<notin> snd ` set fm \<union> set (destinations rest)" for c
    proof -
      from that have c: "c \<notin> snd ` set fm" "c \<notin> set (destinations rest)" by auto
      have "column_values (h2 ! df) c = column_values (?h1 ! df) c" using i7 c(2) by blast
      also have "\<dots> = column_values (h ! df) c" using vals c(1) by blast
      finally show ?thesis .
    qed
  qed
qed

lemma df_copy_props:
  "df < length h \<Longrightarrow> df_copy h df = (h1, df1) \<Longrightarrow>
   df1 = length h \<and> length h1 = Suc (length h) \<and> h1 ! df1 = h ! df \<and> take (length h) h1 = h"
  by (auto simp: df_copy_def)







lemmas flatten_eval =
  extract_nested_fields_def df_copy_def assign_column_def set_column_def column_values_def
  get_field_def dict_get_def cell_def get_column_def extract_nested_fields_n_level_def
  extract_from_dict_def json_normalize_def from_records_def first_seen_def concat_axis1_def
  df_index_def row_of_def len_def dict_update_def

lemma extract_nested_fields_frame:
  assumes "df < length h"
  shows "case extract_nested_fields h df M of (h', r) \<Rightarrow>
           r = length h \<and> length h' = Suc (length h) \<and> take (length h) h' = h \<and>
           len (h' ! r) = len (h ! df) \<and> df_index (h' ! r) = df_index (h ! df) \<and>
           prefix (df_columns (h ! df)) (df_columns (h' ! r)) \<and>
           set (df_columns (h' ! r)) \<subseteq> set (df_columns (h ! df)) \<union> set (destinations M) \<and>
           (\<forall>c. c \<notin> set (destinations M) \<longrightarrow> column_values (h' ! r) c = column_values (h ! df) c)"
proof -
  let ?h1 = "h @ [h ! df]"
  let ?r = "length h"
  have l: "?r < length ?h1" by simp
  note nf = nested_loop_frame[OF l, of M]
  have at: "?h1 ! ?r = h ! df" by simp
  have "take (length h) (nested_loop ?h1 ?r M) = h"
  proof (rule nth_equalityI)
    show "length (take (length h) (nested_loop ?h1 ?r M)) = length h" using nf by simp
  next
    fix i assume "i < length (take (length h) (nested_loop ?h1 ?r M))"
    then have i: "i < length h" by simp
    then have "nested_loop ?h1 ?r M ! i = ?h1 ! i" using nf by simp
    then show "take (length h) (nested_loop ?h1 ?r M) ! i = h ! i" using i by (simp add: nth_append)
  qed
  then show ?thesis using nf at
    by (simp add: extract_nested_fields_def df_copy_def)
qed

lemma written_columns_cong:
  "set cols = set cols' \<Longrightarrow> written_columns cols M = written_columns cols' M"
proof (induction M arbitrary: cols cols')
  case Nil then show ?case by simp
next
  case (Cons e rest)
  obtain nc fm where e: "e = (nc, fm)" by (cases e)
  have "set (cols @ map snd fm) = set (cols' @ map snd fm)" using Cons.prems by simp
  from Cons.IH[OF this] Cons.IH[OF Cons.prems] show ?case using e Cons.prems by simp
qed

lemma written_columns_destinations:
  "set (written_columns cols M) \<subseteq> set (destinations M)"
proof (induction M arbitrary: cols)
  case Nil then show ?case by simp
next
  case (Cons e rest)
  obtain nc fm where e: "e = (nc, fm)" by (cases e)
  have d: "set (destinations (e # rest)) = snd ` set fm \<union> set (destinations rest)"
    using e by (simp add: destinations_def)
  from Cons.IH[of cols] Cons.IH[of "cols @ map snd fm"] show ?case unfolding d using e by auto
qed

text \<open>The columns the outer loop leaves, and the columns it does not write.\<close>

lemma nested_loop_written:
  "df < length h \<Longrightarrow>
   set (df_columns (nested_loop h df M ! df)) =
     set (df_columns (h ! df)) \<union> set (written_columns (df_columns (h ! df)) M) \<and>
   (\<forall>c. c \<notin> set (written_columns (df_columns (h ! df)) M) \<longrightarrow>
        column_values (nested_loop h df M ! df) c = column_values (h ! df) c)"
proof (induction M arbitrary: h)
  case Nil then show ?case by simp
next
  case (Cons e rest)
  obtain nc fm where e: "e = (nc, fm)" by (cases e)
  let ?cols = "df_columns (h ! df)"
  show ?case
  proof (cases "nc \<in> set ?cols")
    case False
    then have eq: "nested_loop h df (e # rest) = nested_loop h df rest"
      and w: "written_columns ?cols (e # rest) = written_columns ?cols rest"
      using e by simp_all
    show ?thesis unfolding eq w by (rule Cons.IH[OF Cons.prems])
  next
    case True
    let ?h1 = "fields_loop h df nc fm"
    note fl = fields_loop_frame[OF Cons.prems, of nc fm]
    have l1: "df < length ?h1" using fl Cons.prems by simp
    have c1: "set (df_columns (?h1 ! df)) = set (?cols @ map snd fm)" using fl by simp
    have v1: "\<forall>c. c \<notin> snd ` set fm \<longrightarrow> column_values (?h1 ! df) c = column_values (h ! df) c"
      using fl by blast
    have eq: "nested_loop h df (e # rest) = nested_loop ?h1 df rest" using e True by simp
    have w: "written_columns ?cols (e # rest) = map snd fm @ written_columns (df_columns (?h1 ! df)) rest"
      using e True written_columns_cong[OF c1, of rest] by simp
    from Cons.IH[OF l1] have
      i1: "set (df_columns (nested_loop ?h1 df rest ! df)) =
             set (df_columns (?h1 ! df)) \<union> set (written_columns (df_columns (?h1 ! df)) rest)" and
      i2: "\<forall>c. c \<notin> set (written_columns (df_columns (?h1 ! df)) rest) \<longrightarrow>
             column_values (nested_loop ?h1 df rest ! df) c = column_values (?h1 ! df) c"
      by blast+
    show ?thesis unfolding eq w
    proof (intro conjI allI impI)
      show "set (df_columns (nested_loop ?h1 df rest ! df)) =
              set ?cols \<union> set (map snd fm @ written_columns (df_columns (?h1 ! df)) rest)"
        unfolding i1 c1 by auto
    next
      fix c assume "c \<notin> set (map snd fm @ written_columns (df_columns (?h1 ! df)) rest)"
      then have c: "c \<notin> snd ` set fm" "c \<notin> set (written_columns (df_columns (?h1 ! df)) rest)" by auto
      have "column_values (nested_loop ?h1 df rest ! df) c = column_values (?h1 ! df) c"
        using i2 c(2) by blast
      also have "\<dots> = column_values (h ! df) c" using v1 c(1) by blast
      finally show "column_values (nested_loop ?h1 df rest ! df) c = column_values (h ! df) c" .
    qed
  qed
qed

lemma extract_nested_fields_written:
  assumes "df < length h"
  shows "case extract_nested_fields h df M of (h', r) \<Rightarrow>
           set (df_columns (h' ! r)) =
             set (df_columns (h ! df)) \<union> set (written_columns (df_columns (h ! df)) M) \<and>
           (\<forall>c. c \<notin> set (written_columns (df_columns (h ! df)) M) \<longrightarrow>
                column_values (h' ! r) c = column_values (h ! df) c)"
proof -
  let ?h1 = "h @ [h ! df]"
  have l: "length h < length ?h1" by simp
  from nested_loop_written[OF l, of M] show ?thesis
    by (simp add: extract_nested_fields_def df_copy_def)
qed

text \<open>
  C7 (as amended). Every column of the table is the same in the result of
  \<open>extract_nested_fields\<close> (the same values in the same rows under the same index, still a
  column exactly when it was one, and at the same position) unless its name is a
  destination that is written: a destination of an entry whose source column is in the
  table when the entry is reached. Source columns are kept like any other, and so is a
  column named as a destination only by entries that are skipped. The input table itself
  is left as it was.
\<close>

theorem untargeted_columns_identical:
  assumes "df < length h" and "c \<notin> set (written_columns (df_columns (h ! df)) M)"
  shows "case extract_nested_fields h df M of (h', r) \<Rightarrow>
           column_values (h' ! r) c = column_values (h ! df) c \<and>
           df_index (h' ! r) = df_index (h ! df) \<and>
           (c \<in> set (df_columns (h' ! r)) \<longleftrightarrow> c \<in> set (df_columns (h ! df))) \<and>
           prefix (df_columns (h ! df)) (df_columns (h' ! r)) \<and> h' ! df = h ! df"
proof -
  obtain h' r where e: "extract_nested_fields h df M = (h', r)" by (cases "extract_nested_fields h df M")
  from extract_nested_fields_frame[OF assms(1), of M] e have
    f: "take (length h) h' = h" "df_index (h' ! r) = df_index (h ! df)"
       "prefix (df_columns (h ! df)) (df_columns (h' ! r))"
    by auto
  from extract_nested_fields_written[OF assms(1), of M] e have
    w: "set (df_columns (h' ! r)) = set (df_columns (h ! df)) \<union> set (written_columns (df_columns (h ! df)) M)"
       "\<forall>c. c \<notin> set (written_columns (df_columns (h ! df)) M) \<longrightarrow>
            column_values (h' ! r) c = column_values (h ! df) c"
    by auto
  have "h' ! df = take (length h) h' ! df" using assms(1) by simp
  then have same: "h' ! df = h ! df" using f(1) by simp
  have "c \<in> set (df_columns (h' ! r)) \<longleftrightarrow> c \<in> set (df_columns (h ! df))"
    using w(1) assms(2) by auto
  then show ?thesis using e f(2,3) w(2) assms(2) same by simp
qed

theorem untargeted_columns_identical_witness:
  "case extract_nested_fields [accounts_table] 0
          [(''Account'', [(''Name'', ''Account Name'')]), (''Owner'', [(''Name'', ''Id'')])] of (h', r) \<Rightarrow>
     column_values (h' ! r) ''Id'' = [VAtom (SStr ''001''), VAtom (SStr ''002'')] \<and>
     column_values (h' ! r) ''Account'' = column_values accounts_table ''Account'' \<and>
     df_columns (h' ! r) = [''Id'', ''Account'', ''Account Name'']"
proof -
  have w: "written_columns (df_columns ([accounts_table] ! 0))
             [(''Account'', [(''Name'', ''Account Name'')]), (''Owner'', [(''Name'', ''Id'')])] = [''Account Name'']"
    by (simp add: accounts_table_def)
  have d: "''Id'' \<notin> set (written_columns (df_columns ([accounts_table] ! 0))
             [(''Account'', [(''Name'', ''Account Name'')]), (''Owner'', [(''Name'', ''Id'')])])"
    "''Account'' \<notin> set (written_columns (df_columns ([accounts_table] ! 0))
             [(''Account'', [(''Name'', ''Account Name'')]), (''Owner'', [(''Name'', ''Id'')])])"
    unfolding w by simp_all
  have l: "0 < length [accounts_table]" by simp
  from untargeted_columns_identical[OF l d(1)] untargeted_columns_identical[OF l d(2)]
  show ?thesis
    by (simp add: accounts_table_def flatten_eval)
qed

text \<open>
  The claim as stated fails for a column that is no source column but whose name is a
  written destination: on a table with the columns \<open>Name\<close> and \<open>Account\<close>,
  \<open>{"Account": {"Name": "Name"}}\<close> replaces the values of \<open>Name\<close>.
\<close>

theorem destination_overwrites_counterexample:
  "''Name'' \<in> set (df_columns named_table) \<and>
   ''Name'' \<notin> set (map fst [(''Account'', [(''Name'', ''Name'')])]) \<and>
   column_values named_table ''Name'' = [VAtom (SStr ''Contract A'')] \<and>
   (case extract_nested_fields [named_table] 0 [(''Account'', [(''Name'', ''Name'')])] of
      (h', r) \<Rightarrow> column_values (h' ! r) ''Name'') = [VAtom (SStr ''Acme'')]"
  by (simp add: named_table_def flatten_eval)

subsection \<open>Row counts and the store\<close>

lemma json_normalize_index:
  "df_index (json_normalize flat records) = map int [0..<length records]"
  by (simp add: json_normalize_def from_records_def df_index_def)

lemma concat_equal_index:
  assumes "df_index a = df_index b"
  shows "\<exists>c. concat_axis1 a b = Inr c \<and> len c = len a \<and> df_index c = df_index a"
proof -
  have l: "length (df_rows a) = length (df_rows b)"
    using assms by (metis df_index_def length_map)
  have "map fst (map (\<lambda>(ra, rb). (fst ra, snd ra @ snd rb)) (zip (df_rows a) (df_rows b))) = map fst (df_rows a)"
    using l by (auto simp: list_eq_iff_nth_eq)
  then show ?thesis using assms l
    by (simp add: concat_axis1_def len_def df_index_def)
qed

lemma n_level_loop_frame:
  "df < length h \<Longrightarrow> n_level_loop flat h df M = (h', res) \<Longrightarrow>
   take (length h) h' = h \<and> (\<forall>r. res = Inr r \<longrightarrow> r < length h')"
proof (induction M arbitrary: h df)
  case Nil then show ?case by auto
next
  case (Cons e rest)
  obtain tc mp where e: "e = (tc, mp)" by (cases e)
  show ?case
  proof (cases "tc \<notin> set (df_columns (h ! df))")
    case True
    with Cons.prems e have "n_level_loop flat h df rest = (h', res)" by simp
    from Cons.IH[OF Cons.prems(1) this] show ?thesis .
  next
    case False
    let ?x = "json_normalize flat (map (\<lambda>x. extract_from_dict x mp) (column_values (h ! df) tc))"
    show ?thesis
    proof (cases "concat_axis1 (h ! df) ?x")
      case (Inl err)
      with False Cons.prems e show ?thesis by (auto simp: Let_def)
    next
      case (Inr new)
      with False Cons.prems e have r: "n_level_loop flat (h @ [new]) (length h) rest = (h', res)"
        by (simp add: Let_def)
      have "length h < length (h @ [new])" by simp
      from Cons.IH[OF this r] have t: "take (Suc (length h)) h' = h @ [new]"
        and b: "\<forall>r. res = Inr r \<longrightarrow> r < length h'" by simp_all
      have "take (length h) h' = take (length h) (take (Suc (length h)) h')" by (simp add: min_def)
      then have "take (length h) h' = h" using t by simp
      then show ?thesis using b by simp
    qed
  qed
qed

lemma n_level_loop_default:
  "df < length h \<Longrightarrow> df_index (h ! df) = map int [0..<len (h ! df)] \<Longrightarrow>
   \<exists>h' r. n_level_loop flat h df M = (h', Inr r) \<and>
          len (h' ! r) = len (h ! df) \<and> df_index (h' ! r) = df_index (h ! df)"
proof (induction M arbitrary: h df)
  case Nil then show ?case by simp
next
  case (Cons e rest)
  obtain tc mp where e: "e = (tc, mp)" by (cases e)
  show ?case
  proof (cases "tc \<notin> set (df_columns (h ! df))")
    case True
    then show ?thesis using Cons.IH[OF Cons.prems] e by simp
  next
    case False
    let ?x = "json_normalize flat (map (\<lambda>x. extract_from_dict x mp) (column_values (h ! df) tc))"
    have "df_index ?x = map int [0..<len (h ! df)]"
      by (simp add: json_normalize_index column_values_length len_def)
    then have "df_index (h ! df) = df_index ?x" using Cons.prems(2) by simp
    from concat_equal_index[OF this] obtain new where new: "concat_axis1 (h ! df) ?x = Inr new"
      and ln: "len new = len (h ! df)" and ix: "df_index new = df_index (h ! df)" by blast
    have l: "length h < length (h @ [new])" by simp
    have d: "df_index ((h @ [new]) ! length h) = map int [0..<len ((h @ [new]) ! length h)]"
      using ln ix Cons.prems(2) by simp
    from Cons.IH[OF l d] obtain h' r where
      "n_level_loop flat (h @ [new]) (length h) rest = (h', Inr r)"
      "len (h' ! r) = len new" "df_index (h' ! r) = df_index new" by auto
    then show ?thesis using False e new ln ix by (simp add: Let_def)
  qed
qed

text \<open>
  What does hold: neither function writes a table that was in the store, the one-level
  flattener keeps the row count, and the n-level one keeps it on a table indexed
  \<open>0, 1, 2, ...\<close>.
\<close>

lemma flatten_preserves_rows:
  assumes "df < length h"
  shows "(case extract_nested_fields h df M of (h', r) \<Rightarrow>
            take (length h) h' = h \<and> len (h' ! r) = len (h ! df)) \<and>
         (case extract_nested_fields_n_level flat h df N of (h', res) \<Rightarrow>
            take (length h) h' = h \<and>
            (df_index (h ! df) = map int [0..<len (h ! df)] \<longrightarrow>
               (\<exists>r. res = Inr r \<and> len (h' ! r) = len (h ! df))))"
proof
  show "case extract_nested_fields h df M of (h', r) \<Rightarrow>
            take (length h) h' = h \<and> len (h' ! r) = len (h ! df)"
    using extract_nested_fields_frame[OF assms, of M] by auto
next
  let ?h1 = "h @ [h ! df]"
  obtain h' res where n: "n_level_loop flat ?h1 (length h) N = (h', res)"
    by (cases "n_level_loop flat ?h1 (length h) N")
  have l: "length h < length ?h1" by simp
  from n_level_loop_frame[OF l n] have "take (Suc (length h)) h' = ?h1" by simp
  then have "take (length h) (take (Suc (length h)) h') = h" by simp
  then have t: "take (length h) h' = h" by (simp add: min_def)
  have "\<exists>r. res = Inr r \<and> len (h' ! r) = len (h ! df)"
    if "df_index (h ! df) = map int [0..<len (h ! df)]"
  proof -
    have "df_index (?h1 ! length h) = map int [0..<len (?h1 ! length h)]" using that by simp
    from n_level_loop_default[OF l this, of flat N] n show ?thesis by auto
  qed
  then show "case extract_nested_fields_n_level flat h df N of (h', res) \<Rightarrow>
            take (length h) h' = h \<and>
            (df_index (h ! df) = map int [0..<len (h ! df)] \<longrightarrow>
               (\<exists>r. res = Inr r \<and> len (h' ! r) = len (h ! df)))"
    using n t by (simp add: extract_nested_fields_n_level_def df_copy_def)
qed

subsection \<open>Absent and null paths\<close>





lemma cell_append_absent:
  "k \<notin> fst ` set r \<Longrightarrow> k \<notin> fst ` set e \<Longrightarrow> cell (r @ e) k = VAtom SNull"
proof -
  assume "k \<notin> fst ` set r" "k \<notin> fst ` set e"
  then have "map_of r k = None" "map_of e k = None" by (simp_all add: map_of_eq_None_iff)
  then show ?thesis by (simp add: cell_def map_add_def)
qed












text \<open>
  The same absence arises in \<open>extract_nested_fields_n_level\<close> when the relationship is null
  in every row: every extracted record is empty, so the destination column is never made.
\<close>

lemma n_level_all_null_no_column:
  "(case extract_nested_fields_n_level (\<lambda>r. r)
          [\<lparr>df_columns = [''Id'', ''Account''],
            df_rows = [(0, [(''Id'', VAtom (SStr ''002'')), (''Account'', VAtom SNull)])]\<rparr>] 0 account_paths
    of (h', res) \<Rightarrow> map_sum id (\<lambda>r. get_column (h' ! r) ''Account Name'') res) =
   Inr (Inl (KeyError ''Account Name''))"
  by (simp add: account_paths_def flatten_eval)

text \<open>
  C5. The row count is not kept by \<open>extract_nested_fields_n_level\<close> on a table whose index
  is not \<open>0, 1, 2, ...\<close>, such as a table \<open>apply_filters\<close> returned: \<open>pd.concat(axis=1)\<close> aligns
  the extracted columns, indexed from 0, on the index labels. The one activated contract,
  labelled 1, comes back as two rows, its account name on a row of its own, where
  \<open>extract_nested_fields\<close> returns one row.
\<close>

theorem n_level_row_count_diverges:
  "apply_filters contracts_table [(''Status'', Lit (OScalar (SStr ''Activated'')))] = Inr activated_contracts \<and>
   len activated_contracts = 1 \<and>
   (case extract_nested_fields_n_level (\<lambda>r. r) [activated_contracts] 0 account_paths of
      (h', res) \<Rightarrow> map_sum id (\<lambda>r. df_rows (h' ! r)) res) =
     Inr [(1, [(''Status'', VAtom (SStr ''Activated'')), (''Account'', VObj [(''Name'', VAtom (SStr ''Globex''))])]),
          (0, [(''Account Name'', VAtom (SStr ''Globex''))])] \<and>
   (case extract_nested_fields [activated_contracts] 0 account_mapping of
      (h', r) \<Rightarrow> len (h' ! r)) = 1"
  by (simp add: contracts_table_def activated_contracts_def account_paths_def account_mapping_def
      filter_eval flatten_eval)

section \<open>Properties of the contract segments\<close>

lemma collect_all_Inr:
  "\<forall>x\<in>set xs. \<exists>b. f x = Inr b \<Longrightarrow> \<exists>bs. collect (map f xs) = Inr bs"
  by (induction xs) auto

lemma compare_eq_total: "\<exists>b. compare_val Eq v y = Inr b"
  by (cases v) (auto simp: compare_val_def compare_scalar_def)

lemma compare_date_total:
  assumes "v = VAtom SNull \<or> (\<exists>d. v = VAtom (SDate d))"
  shows "\<exists>b. compare_val op v (SDate t) = Inr b"
  using assms by (cases op) (auto simp: compare_val_def compare_scalar_def py_ord_def)

text \<open>The shape both segment filters share.\<close>

lemma segment_keeps_row:
  assumes cols: "''EndDate'' \<in> set (df_columns df)" "''Status'' \<in> set (df_columns df)"
      "''SBQQ__RenewalOpportunity__c'' \<in> set (df_columns df)"
    and dates: "\<forall>v\<in>set (column_values df ''EndDate''). v = VAtom SNull \<or> (\<exists>d. v = VAtom (SDate d))"
    and r: "r \<in> set (df_rows df)"
    and ok: "compare_val op (cell (snd r) ''EndDate'') (SDate t) = Inr True"
    and st: "cell (snd r) ''Status'' = VAtom (SStr ''Activated'')"
    and rn: "cell (snd r) ''SBQQ__RenewalOpportunity__c'' = VAtom SNull"
  shows "\<exists>out.
     (case get_column df ''EndDate'' of Inl e \<Rightarrow> Inl e | Inr end_date \<Rightarrow>
      (case compare_series op end_date (OScalar (SDate t)) of Inl e \<Rightarrow> Inl e | Inr m1 \<Rightarrow>
      (case get_column df ''Status'' of Inl e \<Rightarrow> Inl e | Inr status \<Rightarrow>
      (case compare_series Eq status (OScalar (SStr ''Activated'')) of Inl e \<Rightarrow> Inl e | Inr m2 \<Rightarrow>
      (case get_column df ''SBQQ__RenewalOpportunity__c'' of Inl e \<Rightarrow> Inl e | Inr renewal \<Rightarrow>
         Inr (df_loc df (mask_and (mask_and m1 m2) (isna renewal)))))))) = Inr out \<and>
     r \<in> set (df_rows out)"
proof -
  let ?n = "length (df_rows df)"
  let ?e = "column_values df ''EndDate''" and ?s = "column_values df ''Status''"
    and ?o = "column_values df ''SBQQ__RenewalOpportunity__c''"
  from dates have "\<forall>v\<in>set ?e. \<exists>b. compare_val op v (SDate t) = Inr b"
    using compare_date_total by blast
  from collect_all_Inr[OF this] obtain m1 where m1: "collect (map (\<lambda>v. compare_val op v (SDate t)) ?e) = Inr m1"
    by blast
  have "\<forall>v\<in>set ?s. \<exists>b. compare_val Eq v (SStr ''Activated'') = Inr b"
    using compare_eq_total by blast
  from collect_all_Inr[OF this] obtain m2 where m2: "collect (map (\<lambda>v. compare_val Eq v (SStr ''Activated'')) ?s) = Inr m2"
    by blast
  from r obtain i where i: "i < ?n" "df_rows df ! i = r" by (auto simp: in_set_conv_nth)
  have l1: "length m1 = ?n" and v1: "compare_val op (?e ! i) (SDate t) = Inr (m1 ! i)"
    using collect_Inr[OF m1] i(1) by (simp_all add: column_values_def)
  have l2: "length m2 = ?n" and v2: "compare_val Eq (?s ! i) (SStr ''Activated'') = Inr (m2 ! i)"
    using collect_Inr[OF m2] i(1) by (simp_all add: column_values_def)
  have a1: "m1 ! i" using v1 ok i by (simp add: column_values_def)
  have a2: "m2 ! i" using v2 st i by (simp add: column_values_def compare_val_def compare_scalar_def py_eq_def)
  have a3: "isna ?o ! i" using rn i by (simp add: isna_def column_values_def)
  let ?m = "mask_and (mask_and m1 m2) (isna ?o)"
  have l3: "length (isna ?o) = ?n" by (simp add: isna_def column_values_def)
  have l12: "length (mask_and m1 m2) = ?n" using l1 l2 by (simp add: mask_and_length)
  have lm: "length ?m = ?n" using l12 l3 by (simp add: mask_and_length)
  have "mask_and m1 m2 ! i" using a1 a2 l1 l2 i(1) by (simp add: mask_and_nth)
  then have "?m ! i" using a3 l12 l3 i(1) by (simp add: mask_and_nth)
  then have "r \<in> set (df_rows (df_loc df ?m))" using df_loc_rows[OF lm] i by auto
  then show ?thesis using cols m1 m2
    by (simp add: get_column_def compare_series_def)
qed

text \<open>
  C10. On a table that has the three columns and whose \<open>EndDate\<close> cells are dates or null
  (as \<open>normalize_dates\<close> leaves them), with the same day \<open>t\<close> as today in both functions,
  both \<open>leakage_zombies\<close> and \<open>expiring_soon_contracts\<close> succeed, and every row whose
  \<open>Status\<close> is \<open>Activated\<close>, whose \<open>SBQQ__RenewalOpportunity__c\<close> is null and whose
  \<open>EndDate\<close> is exactly 30 days before \<open>t\<close> is in the output of both: the two segments
  overlap at the boundary date.
\<close>

theorem boundary_row_in_both_segments:
  assumes "''EndDate'' \<in> set (df_columns df)" and "''Status'' \<in> set (df_columns df)"
    and "''SBQQ__RenewalOpportunity__c'' \<in> set (df_columns df)"
    and "\<forall>v\<in>set (column_values df ''EndDate''). v = VAtom SNull \<or> (\<exists>d. v = VAtom (SDate d))"
    and "r \<in> set (df_rows df)"
    and "cell (snd r) ''EndDate'' = VAtom (SDate (t - 30))"
    and "cell (snd r) ''Status'' = VAtom (SStr ''Activated'')"
    and "cell (snd r) ''SBQQ__RenewalOpportunity__c'' = VAtom SNull"
    and "(case today of None \<Rightarrow> now | Some d \<Rightarrow> d) = t"
  shows "\<exists>a b. leakage_zombies now df today = Inr a \<and> expiring_soon_contracts t df = Inr b \<and>
               r \<in> set (df_rows a) \<and> r \<in> set (df_rows b)"
proof -
  have le: "compare_val Le (cell (snd r) ''EndDate'') (SDate (t - 30)) = Inr True"
    and ge: "compare_val Ge (cell (snd r) ''EndDate'') (SDate (t - 30)) = Inr True"
    using assms(6) by (simp_all add: compare_val_def compare_scalar_def py_ord_def)
  from segment_keeps_row[OF assms(1-5) le assms(7,8)] assms(9)
  obtain a where a: "leakage_zombies now df today = Inr a" "r \<in> set (df_rows a)"
    by (auto simp: leakage_zombies_def)
  from segment_keeps_row[OF assms(1-5) ge assms(7,8)]
  obtain b where b: "expiring_soon_contracts t df = Inr b" "r \<in> set (df_rows b)"
    by (auto simp: expiring_soon_contracts_def)
  from a b show ?thesis by blast
qed


theorem boundary_row_in_both_segments_witness:
  "leakage_zombies 100 zombie_table None =
     Inr (zombie_table\<lparr>df_rows := take 2 (df_rows zombie_table)\<rparr>) \<and>
   expiring_soon_contracts 100 zombie_table =
     Inr (zombie_table\<lparr>df_rows := take 2 (drop 1 (df_rows zombie_table))\<rparr>) \<and>
   (\<exists>a b. leakage_zombies 100 zombie_table None = Inr a \<and>
          expiring_soon_contracts 100 zombie_table = Inr b \<and>
          df_rows zombie_table ! 1 \<in> set (df_rows a) \<and> df_rows zombie_table ! 1 \<in> set (df_rows b))"
proof -
  have c: "''EndDate'' \<in> set (df_columns zombie_table)" "''Status'' \<in> set (df_columns zombie_table)"
    "''SBQQ__RenewalOpportunity__c'' \<in> set (df_columns zombie_table)"
    by (simp_all add: zombie_table_def)
  have d: "\<forall>v\<in>set (column_values zombie_table ''EndDate''). v = VAtom SNull \<or> (\<exists>d. v = VAtom (SDate d))"
    by (simp add: zombie_table_def column_values_def cell_def)
  have r: "df_rows zombie_table ! 1 \<in> set (df_rows zombie_table)" by (simp add: zombie_table_def)
  have v: "cell (snd (df_rows zombie_table ! 1)) ''EndDate'' = VAtom (SDate (100 - 30))"
    "cell (snd (df_rows zombie_table ! 1)) ''Status'' = VAtom (SStr ''Activated'')"
    "cell (snd (df_rows zombie_table ! 1)) ''SBQQ__RenewalOpportunity__c'' = VAtom SNull"
    by (simp_all add: zombie_table_def cell_def)
  have t: "(case None of None \<Rightarrow> 100 | Some d \<Rightarrow> d) = (100::int)" by simp
  have e1: "leakage_zombies 100 zombie_table None =
     Inr (zombie_table\<lparr>df_rows := take 2 (df_rows zombie_table)\<rparr>)"
    by (simp add: zombie_table_def leakage_zombies_def filter_eval)
  have e2: "expiring_soon_contracts 100 zombie_table =
     Inr (zombie_table\<lparr>df_rows := take 2 (drop 1 (df_rows zombie_table))\<rparr>)"
    by (simp add: zombie_table_def expiring_soon_contracts_def filter_eval)
  from boundary_row_in_both_segments[OF c d r v t] e1 e2 show ?thesis by blast
qed

section \<open>Properties of the pie segments\<close>

lemma string_title_get:
  assumes "case map_of item ''title'' of None \<Rightarrow> True
           | Some v \<Rightarrow> (case v of VAtom (SStr s) \<Rightarrow> True | _ \<Rightarrow> False)"
  shows "\<exists>s. get_or item ''title'' (VAtom (SStr [])) = VAtom (SStr s)"
  using assms by (auto simp: get_or_def split: option.splits val.splits scalar.splits)







text \<open>A title that is present and is not a string ends the first loop with \<open>TypeError\<close>.\<close>

lemma non_string_title_raises:
  "\<not> string_titles llm_output \<Longrightarrow>
   build_pie_segments llm_output label_to_df_map pie_labels pie_colors = Inl TypeError"
proof -
  have "description_loop acc llm_output = Inl TypeError" if "\<not> string_titles llm_output" for acc
    using that
  proof (induction llm_output arbitrary: acc)
    case Nil then show ?case by (simp add: string_titles_def)
  next
    case (Cons item rest)
    show ?case
    proof (cases "case map_of item ''title'' of None \<Rightarrow> True
           | Some v \<Rightarrow> (case v of VAtom (SStr s) \<Rightarrow> True | _ \<Rightarrow> False)")
      case True
      from string_title_get[OF True] obtain s where s: "get_or item ''title'' (VAtom (SStr [])) = VAtom (SStr s)"
        by blast
      from Cons.prems True have "\<not> string_titles rest" by (simp add: string_titles_def)
      from Cons.IH[OF this] show ?thesis using s by simp
    next
      case False
      then show ?thesis
        by (auto simp: get_or_def split: option.splits val.splits scalar.splits)
    qed
  qed
  then show "\<not> string_titles llm_output \<Longrightarrow> ?thesis" by (simp add: build_pie_segments_def)
qed




end
